theory Spec2Isabelle
  imports Main "HOL-Library.Word"
begin

section \<open>The device registry (contracts/DeviceRegistry.sol)\<close>

subsection \<open>Data\<close>

text \<open>
  Solidity value types: \<open>bytes32\<close> and \<open>uint256\<close> are 256-bit words, an
  \<open>address\<close> is a 160-bit word, \<open>bytes\<close> is a list of octets. The conversion
  \<open>uint256(deviceId)\<close> of a \<open>bytes32\<close> keeps the 256 bits as they are.
\<close>

type_synonym bytes32 = "256 word"
type_synonym uint256 = "256 word"
type_synonym address = "160 word"
type_synonym bytes = "8 word list"

definition uint256_of_bytes32 :: "bytes32 \<Rightarrow> uint256" where
  "uint256_of_bytes32 b = b"

record Device =
  deviceId :: bytes32
  pubKeyHash :: bytes32
  helperData :: bytes
  registeredAt :: uint256
  isActive :: bool
  owner :: address

record EncryptedTransaction =
  tx_deviceId :: bytes32
  tx_dataHash :: bytes32
  tx_encryptedData :: bytes
  tx_timestamp :: uint256

text \<open>
  The storage of the contract. A Solidity mapping is total: a key never written reads as
  the zero value of the value type (\<open>zeroDevice\<close>, the empty array). \<open>paused\<close> is
  the flag of the inherited Pausable and \<open>contractOwner\<close> the owner slot of the
  inherited Ownable; both base contracts are library code outside the repository.
\<close>

record DeviceRegistry =
  verifier :: address
  devices :: "bytes32 \<Rightarrow> Device"
  transactions :: "bytes32 \<Rightarrow> EncryptedTransaction list"
  totalDevices :: uint256
  paused :: bool
  contractOwner :: address

definition zeroDevice :: Device where
  "zeroDevice = \<lparr>deviceId = 0, pubKeyHash = 0, helperData = [], registeredAt = 0,
     isActive = False, owner = 0\<rparr>"

text \<open>
  The constructor: every storage slot is zero except the owner and the verifier. (The
  constructor of Ownable may refuse some owners; the model deploys with any owner.)
\<close>

definition deploy :: "address \<Rightarrow> address \<Rightarrow> DeviceRegistry" where
  "deploy initialOwner verifierAddress =
     \<lparr>verifier = verifierAddress, devices = (\<lambda>_. zeroDevice), transactions = (\<lambda>_. []),
      totalDevices = 0, paused = False, contractOwner = initialOwner\<rparr>"

text \<open>What a call sees of its transaction: \<open>msg.sender\<close> and \<open>block.timestamp\<close>.\<close>

record Env =
  msg_sender :: address
  block_timestamp :: uint256

datatype Event =
    DeviceRegistered bytes32 uint256
  | DeviceDeactivated bytes32 uint256
  | AuthenticationAttempt bytes32 bool
  | TransactionRecorded bytes32 bytes32 uint256

text \<open>
  A call reverts with the message of the failed \<open>require\<close>, with the failure of the
  \<open>whenNotPaused\<close> modifier, or with a panic code (0x11 = 17, the overflow of checked
  arithmetic in Solidity 0.8).
\<close>

datatype Failure = Paused | Error string | Panic nat

text \<open>
  The outcome of a call: the returned value or the failure, the storage after the
  transaction, and the events it logged. A revert rolls the storage back and logs nothing.
\<close>

type_synonym 'a Result = "(Failure + 'a) \<times> DeviceRegistry \<times> Event list"

definition returned :: "'a Result \<Rightarrow> Failure + 'a" where
  "returned r = fst r"

definition post_state :: "'a Result \<Rightarrow> DeviceRegistry" where
  "post_state r = fst (snd r)"

definition emitted :: "'a Result \<Rightarrow> Event list" where
  "emitted r = snd (snd r)"

text \<open>
  The Groth16 proof \<open>(a, b, c)\<close> and the three public inputs are fixed-size arrays of
  \<open>uint256\<close>; \<open>input[0]\<close> is the first component. The verifier contract
  (DeviceVerifier, an empty extension of the generated Groth16Verifier) is not among the
  sources: its \<open>verifyProof\<close> view is a parameter of the model.
\<close>

type_synonym G1Point = "uint256 \<times> uint256"
type_synonym G2Point = "(uint256 \<times> uint256) \<times> (uint256 \<times> uint256)"
type_synonym PublicInputs = "uint256 \<times> uint256 \<times> uint256"
type_synonym Verifier = "G1Point \<Rightarrow> G2Point \<Rightarrow> G1Point \<Rightarrow> PublicInputs \<Rightarrow> bool"

definition input0 :: "PublicInputs \<Rightarrow> uint256" where
  "input0 inp = fst inp"

subsection \<open>Operations\<close>

text \<open>
  Each function checks \<open>whenNotPaused\<close> and its \<open>require\<close>s in the order of the
  source, before any write. In \<open>registerDevice\<close> the checked increment
  \<open>totalDevices++\<close> comes after the write to \<open>devices\<close>; when it overflows the call
  reverts and that write is rolled back with it, so the outcome is the storage before the
  call.
\<close>

definition registerDevice ::
  "Env \<Rightarrow> bytes32 \<Rightarrow> bytes32 \<Rightarrow> bytes \<Rightarrow> DeviceRegistry \<Rightarrow> bool Result" where
  "registerDevice e dId pkh hData s =
     (if paused s then (Inl Paused, s, [])
      else if registeredAt (devices s dId) \<noteq> 0
        then (Inl (Error ''Device already registered''), s, [])
      else if dId = 0 then (Inl (Error ''Invalid device ID''), s, [])
      else if pkh = 0 then (Inl (Error ''Invalid public key hash''), s, [])
      else if totalDevices s = - 1 then (Inl (Panic 17), s, [])
      else (Inr True,
            s\<lparr>devices := (devices s)(dId :=
                  \<lparr>deviceId = dId, pubKeyHash = pkh, helperData = hData,
                   registeredAt = block_timestamp e, isActive = True,
                   owner = msg_sender e\<rparr>),
              totalDevices := totalDevices s + 1\<rparr>,
            [DeviceRegistered dId (block_timestamp e)]))"

definition authenticate ::
  "Verifier \<Rightarrow> Env \<Rightarrow> bytes32 \<Rightarrow> G1Point \<Rightarrow> G2Point \<Rightarrow> G1Point \<Rightarrow> PublicInputs \<Rightarrow>
   DeviceRegistry \<Rightarrow> bool Result" where
  "authenticate verifyProof e dId a b c inp s =
     (if paused s then (Inl Paused, s, [])
      else if \<not> isActive (devices s dId) then (Inl (Error ''Device not active''), s, [])
      else let deviceIdNum = uint256_of_bytes32 dId in
        if input0 inp \<noteq> deviceIdNum then (Inl (Error ''Device ID mismatch''), s, [])
        else let isValid = verifyProof a b c inp in
          (Inr isValid, s, [AuthenticationAttempt dId isValid]))"

definition recordTransaction ::
  "Verifier \<Rightarrow> Env \<Rightarrow> bytes32 \<Rightarrow> bytes32 \<Rightarrow> bytes \<Rightarrow> G1Point \<Rightarrow> G2Point \<Rightarrow> G1Point \<Rightarrow>
   PublicInputs \<Rightarrow> DeviceRegistry \<Rightarrow> bool Result" where
  "recordTransaction verifyProof e dId dHash encData a b c inp s =
     (if paused s then (Inl Paused, s, [])
      else if \<not> isActive (devices s dId) then (Inl (Error ''Device not active''), s, [])
      else if input0 inp \<noteq> uint256_of_bytes32 dId
        then (Inl (Error ''Device ID mismatch''), s, [])
      else let isValid = verifyProof a b c inp in
        if \<not> isValid then (Inl (Error ''Invalid proof''), s, [])
        else (Inr True,
              s\<lparr>transactions := (transactions s)(dId := transactions s dId @
                    [\<lparr>tx_deviceId = dId, tx_dataHash = dHash, tx_encryptedData = encData,
                      tx_timestamp = block_timestamp e\<rparr>])\<rparr>,
              [TransactionRecorded dId dHash (block_timestamp e)]))"

definition getTransactionCount :: "DeviceRegistry \<Rightarrow> bytes32 \<Rightarrow> uint256" where
  "getTransactionCount s dId = word_of_nat (length (transactions s dId))"

definition isDeviceRegistered :: "DeviceRegistry \<Rightarrow> bytes32 \<Rightarrow> bool" where
  "isDeviceRegistered s dId = (registeredAt (devices s dId) \<noteq> 0)"

definition isDeviceActive :: "DeviceRegistry \<Rightarrow> bytes32 \<Rightarrow> bool" where
  "isDeviceActive s dId = isActive (devices s dId)"

text \<open>The failures of the specification, as the messages of the contract.\<close>

definition AlreadyRegistered :: Failure where
  "AlreadyRegistered = Error ''Device already registered''"

definition NotActive :: Failure where
  "NotActive = Error ''Device not active''"

definition BindingMismatch :: Failure where
  "BindingMismatch = Error ''Device ID mismatch''"

definition ProofRejected :: Failure where
  "ProofRejected = Error ''Invalid proof''"

subsection \<open>The interface as a transition system\<close>

text \<open>
  The entry points of the contract. \<open>OwnableCall\<close> stands for the entry points inherited
  from Ownable (transferOwnership, renounceOwnership): whatever they check, the only slot
  they can write is the owner, so the model lets the call leave any owner behind.
  Pausable has no external entry point and the contract never calls its internal ones.
\<close>

datatype Call =
    RegisterDevice bytes32 bytes32 bytes
  | Authenticate bytes32 G1Point G2Point G1Point PublicInputs
  | RecordTransaction bytes32 bytes32 bytes G1Point G2Point G1Point PublicInputs
  | GetTransactionCount bytes32
  | IsDeviceRegistered bytes32
  | IsDeviceActive bytes32
  | OwnableCall address

fun exec :: "Verifier \<Rightarrow> Env \<Rightarrow> Call \<Rightarrow> DeviceRegistry \<Rightarrow> DeviceRegistry \<times> Event list" where
  "exec vp e (RegisterDevice dId pkh hData) s = snd (registerDevice e dId pkh hData s)"
| "exec vp e (Authenticate dId a b c inp) s = snd (authenticate vp e dId a b c inp s)"
| "exec vp e (RecordTransaction dId dHash encData a b c inp) s =
     snd (recordTransaction vp e dId dHash encData a b c inp s)"
| "exec vp e (GetTransactionCount dId) s = (s, [])"
| "exec vp e (IsDeviceRegistered dId) s = (s, [])"
| "exec vp e (IsDeviceActive dId) s = (s, [])"
| "exec vp e (OwnableCall newOwner) s = (s\<lparr>contractOwner := newOwner\<rparr>, [])"

text \<open>
  The ledger runs calls one after the other. Every block after the genesis block has a
  timestamp strictly above its parent's, so \<open>block.timestamp\<close> is never 0 when a call
  runs; the contract relies on it, reading \<open>registeredAt = 0\<close> as "no record".
\<close>

inductive runs :: "Verifier \<Rightarrow> DeviceRegistry \<Rightarrow> DeviceRegistry \<Rightarrow> bool" for vp where
  runs_refl: "runs vp s s"
| runs_step: "runs vp s s' \<Longrightarrow> block_timestamp e \<noteq> 0 \<Longrightarrow> runs vp s (fst (exec vp e c s'))"

definition reachable :: "Verifier \<Rightarrow> DeviceRegistry \<Rightarrow> bool" where
  "reachable vp s = (\<exists>initialOwner verifierAddress. runs vp (deploy initialOwner verifierAddress) s)"

text \<open>The invariant of the storage: the contract is not paused, and a device is active
  exactly when it has a record.\<close>

definition registry_inv :: "DeviceRegistry \<Rightarrow> bool" where
  "registry_inv s = (\<not> paused s \<and> (\<forall>d. isActive (devices s d) = (registeredAt (devices s d) \<noteq> 0)))"

text \<open>The counter counts the records, and the zero identifier has none.\<close>

definition counter_inv :: "DeviceRegistry \<Rightarrow> bool" where
  "counter_inv s = (registeredAt (devices s 0) = 0
     \<and> unat (totalDevices s) = card {d. registeredAt (devices s d) \<noteq> 0})"

section \<open>The proof cache (scripts/run_experiments.js)\<close>

text \<open>
  The class ProofCache: a Map from the key \<open>`${deviceId}-${challenge}`\<close> to an entry
  \<open>{proof, publicSignals, timestamp}\<close>, and one time-to-live for the whole cache,
  \<open>timeout\<close> (300000 ms unless the constructor is given another). The proof and the
  public signals are opaque to the cache. \<open>Date.now()\<close>, in milliseconds, is the first
  argument of \<open>set\<close> and \<open>get\<close>; \<open>get\<close> returns the entry or \<open>null\<close>
  (\<open>None\<close>) together with the cache as the call leaves it.
\<close>

record ('p, 's) CacheEntry =
  entry_proof :: 'p
  entry_publicSignals :: 's
  entry_timestamp :: int

record ('p, 's) ProofCache =
  cache :: "string \<rightharpoonup> ('p, 's) CacheEntry"
  timeout :: int

definition newProofCache :: "int \<Rightarrow> ('p, 's) ProofCache" where
  "newProofCache timeoutMs = \<lparr>cache = Map.empty, timeout = timeoutMs\<rparr>"

definition defaultTimeoutMs :: int where
  "defaultTimeoutMs = 300000"

definition getKey :: "string \<Rightarrow> string \<Rightarrow> string" where
  "getKey dId challenge = dId @ ''-'' @ challenge"

definition ProofCache_set ::
  "int \<Rightarrow> string \<Rightarrow> string \<Rightarrow> 'p \<Rightarrow> 's \<Rightarrow> ('p, 's) ProofCache \<Rightarrow> ('p, 's) ProofCache" where
  "ProofCache_set now dId challenge pf publicSignals pc =
     (let key = getKey dId challenge in
      pc\<lparr>cache := (cache pc)(key \<mapsto>
        \<lparr>entry_proof = pf, entry_publicSignals = publicSignals, entry_timestamp = now\<rparr>)\<rparr>)"

definition ProofCache_get ::
  "int \<Rightarrow> string \<Rightarrow> string \<Rightarrow> ('p, 's) ProofCache \<Rightarrow>
   ('p, 's) CacheEntry option \<times> ('p, 's) ProofCache" where
  "ProofCache_get now dId challenge pc =
     (let key = getKey dId challenge in
      case cache pc key of
        None \<Rightarrow> (None, pc)
      | Some entry \<Rightarrow>
          if now - entry_timestamp entry > timeout pc
          then (None, pc\<lparr>cache := (cache pc)(key := None)\<rparr>)
          else (Some entry, pc))"

section \<open>The PUF simulator and the circuit\<close>

subsection \<open>utils/PUFSimulator.js\<close>

text \<open>
  Challenges, responses and hashes are elements of the scalar field of BN254, natural
  numbers below \<open>maxField\<close>. Two functions are library code and parameters of the
  model: SHA-256, here from the bytes hashed to the digest read as a number
  (\<open>BigInt('0x' + digest)\<close>), and the Poseidon hash that \<open>initialize\<close> builds, from
  the list of inputs to the field element. \<open>poseidon\<close> is \<open>null\<close> (\<open>None\<close>)
  until \<open>initialize\<close> has run. \<open>toString\<close> is the decimal notation of a BigInt.
  \<open>generateExpectedHash\<close> returns the decimal notation of the hash, the model the
  number it denotes.
\<close>

definition maxField :: nat where
  "maxField = 21888242871839275222246405745257275088548364400416034343698204186575808495617"

type_synonym Hash = "nat list \<Rightarrow> nat"

record PUFSimulator =
  seed :: bytes
  responseMap :: "string \<rightharpoonup> nat"
  poseidon :: "Hash option"

definition newPUFSimulator :: "bytes \<Rightarrow> PUFSimulator" where
  "newPUFSimulator sd = \<lparr>seed = sd, responseMap = Map.empty, poseidon = None\<rparr>"

definition initialize :: "Hash \<Rightarrow> PUFSimulator \<Rightarrow> PUFSimulator" where
  "initialize buildPoseidon sim = sim\<lparr>poseidon := Some buildPoseidon\<rparr>"

fun toString :: "nat \<Rightarrow> string" where
  "toString n =
     (if n < 10 then [char_of (48 + n)]
      else toString (n div 10) @ [char_of (48 + n mod 10)])"

declare toString.simps [simp del]

definition Buffer_from :: "string \<Rightarrow> bytes" where
  "Buffer_from str = map of_char str"

definition generateResponse ::
  "(bytes \<Rightarrow> nat) \<Rightarrow> nat \<Rightarrow> nat \<Rightarrow> PUFSimulator \<Rightarrow> nat \<times> PUFSimulator" where
  "generateResponse sha256 dId challenge sim =
     (let key = toString dId @ ''-'' @ toString challenge in
      case responseMap sim key of
        Some response \<Rightarrow> (response, sim)
      | None \<Rightarrow>
          let buffer = seed sim @ Buffer_from key;
              response = sha256 buffer mod maxField
          in (response, sim\<lparr>responseMap := (responseMap sim)(key \<mapsto> response)\<rparr>))"

datatype SimulatorError = NotInitialized

definition generateExpectedHash ::
  "(bytes \<Rightarrow> nat) \<Rightarrow> nat \<Rightarrow> nat \<Rightarrow> PUFSimulator \<Rightarrow> (SimulatorError + nat) \<times> PUFSimulator" where
  "generateExpectedHash sha256 dId challenge sim =
     (case poseidon sim of
        None \<Rightarrow> (Inl NotInitialized, sim)
      | Some hashFn \<Rightarrow>
          let (response, sim') = generateResponse sha256 dId challenge sim;
              hash = hashFn [response, challenge]
          in (Inr hash, sim'))"

text \<open>Every response the simulator has stored is a field element.\<close>

definition responses_in_field :: "PUFSimulator \<Rightarrow> bool" where
  "responses_in_field sim =
     (\<forall>key response. responseMap sim key = Some response \<longrightarrow> response < maxField)"

subsection \<open>circuits/templates/DeviceAuth.circom\<close>

text \<open>
  Modelled from the spec: the range check of circomlib's template \<open>Num2Bits(n)\<close>, which
  is not among the sources; the specification calls it the declared bit-range bound of
  the statement. The witness generator writes the input in \<open>n\<close> bits, which succeeds
  exactly when the input is below \<open>2 ^ n\<close>.
\<close>

definition Num2Bits :: "nat \<Rightarrow> nat \<Rightarrow> bool" where
  "Num2Bits n x = (x < 2 ^ n)"

text \<open>
  The template DeviceAuth: three range checks, the signal \<open>computedHash\<close>, which is
  the output of \<open>Poseidon(2)\<close> on \<open>inputs[0] = response\<close> and
  \<open>inputs[1] = challenge\<close>, and the constraint \<open>computedHash === expectedHash\<close>.
  \<open>DeviceAuth\<close> holds when the public inputs \<open>deviceId\<close>, \<open>challenge\<close>,
  \<open>expectedHash\<close> and the private input \<open>response\<close> satisfy every constraint.
  circomlib's Poseidon template computes the function circomlibjs computes: the same
  parameter stands for both.
\<close>

definition DeviceAuth_computedHash :: "Hash \<Rightarrow> nat \<Rightarrow> nat \<Rightarrow> nat" where
  "DeviceAuth_computedHash Poseidon response challenge = Poseidon [response, challenge]"

definition DeviceAuth :: "Hash \<Rightarrow> nat \<Rightarrow> nat \<Rightarrow> nat \<Rightarrow> nat \<Rightarrow> bool" where
  "DeviceAuth Poseidon dId challenge expectedHash response =
     (Num2Bits 254 dId \<and> Num2Bits 254 challenge \<and> Num2Bits 254 response
      \<and> DeviceAuth_computedHash Poseidon response challenge = expectedHash)"

subsection \<open>The commitment and the proof gate of the specification\<close>

text \<open>
  The commitment function as the specification words it: the two-input hash of the pair
  \<open>[response, challenge]\<close>, in that order.
\<close>

definition commit :: "Hash \<Rightarrow> nat \<Rightarrow> nat \<Rightarrow> nat" where
  "commit H response challenge = H [response, challenge]"

text \<open>
  Modelled from the spec: the proof gate, \<open>issue\<close> and \<open>verify\<close>. The prover and the
  verifier (snarkjs, the generated Groth16Verifier.sol) are not among the sources. The
  specification has \<open>issue\<close> fail with Unsatisfiable when the witness does not satisfy
  the statement, a proof bound to the public inputs of exactly one statement, and
  \<open>verify\<close> a pure function that fails with Malformed on public inputs of the wrong
  length and otherwise answers whether the statement, re-evaluated on the public inputs
  it is given, holds of the proof. The model is the ideal gate: a proof records the
  statement and the witness it was issued for.
\<close>

datatype ProofError = Unsatisfiable | Malformed

datatype Proof = Proof (proof_statement: "nat \<times> nat \<times> nat") (proof_witness: nat)

definition issue :: "Hash \<Rightarrow> nat \<times> nat \<times> nat \<Rightarrow> nat \<Rightarrow> ProofError + Proof" where
  "issue H stmt response =
     (case stmt of (dId, challenge, commitment) \<Rightarrow>
        if DeviceAuth H dId challenge commitment response
        then Inr (Proof stmt response) else Inl Unsatisfiable)"

definition verify :: "Hash \<Rightarrow> Proof \<Rightarrow> nat list \<Rightarrow> ProofError + bool" where
  "verify H pf publicInputs =
     (case publicInputs of
        [dId, challenge, commitment] \<Rightarrow>
          Inr ((dId, challenge, commitment) = proof_statement pf
               \<and> DeviceAuth H dId challenge commitment (proof_witness pf))
      | _ \<Rightarrow> Inl Malformed)"

section \<open>Noise on a response (test/experiments.js)\<close>

text \<open>
  \<open>addNoiseToResponse\<close> writes the response in binary (\<open>toString(2)\<close>, most
  significant digit first, \<open>"0"\<close> for 0), flips one digit per iteration of its loop and
  reads the digits back (\<open>BigInt('0b' + ...)\<close>). The number of iterations,
  \<open>Math.floor(responseBits.length * noiseLevel)\<close>, is a product of floating-point
  numbers, and the index of an iteration, \<open>Math.floor(Math.random() * responseBits.length)\<close>,
  is random: the model takes the list of the indices drawn, one for each iteration, and
  leaves both computations to the runtime.
\<close>

fun toString2 :: "nat \<Rightarrow> string" where
  "toString2 n =
     (if n < 2 then [if n = 0 then CHR ''0'' else CHR ''1'']
      else toString2 (n div 2) @ [if n mod 2 = 0 then CHR ''0'' else CHR ''1''])"

declare toString2.simps [simp del]

definition BigInt_0b :: "string \<Rightarrow> nat" where
  "BigInt_0b bits = foldl (\<lambda>acc ch. 2 * acc + (if ch = CHR ''1'' then 1 else 0)) 0 bits"

fun flipBits :: "nat list \<Rightarrow> string \<Rightarrow> string" where
  "flipBits [] responseBits = responseBits"
| "flipBits (index # rest) responseBits =
     flipBits rest
       (responseBits[index := (if responseBits ! index = CHR ''0'' then CHR ''1'' else CHR ''0'')])"

definition addNoiseToResponse :: "nat \<Rightarrow> nat list \<Rightarrow> nat" where
  "addNoiseToResponse responseBigInt indices =
     (let responseBits = toString2 responseBigInt
      in BigInt_0b (flipBits indices responseBits))"

section \<open>Test data\<close>

text \<open>
  The device of test/test-flow.js, registered on a freshly deployed registry as the test
  does (helper data \<open>0x00\<close>; the key hash stands for the hash of the test's public
  key), and a verifier that accepts exactly the proofs whose first coordinate is 1.
\<close>

definition test_deviceId :: bytes32 where
  "test_deviceId = 167187242023213709790752988836059498562277881928506182497546456141543281514"

definition test_env :: Env where
  "test_env = \<lparr>msg_sender = 7, block_timestamp = 1700000000\<rparr>"

definition test_registry :: DeviceRegistry where
  "test_registry = post_state (registerDevice test_env test_deviceId 9 [0] (deploy 7 8))"

definition test_verifier :: Verifier where
  "test_verifier a b c inp = (fst a = 1)"

text \<open>
  The challenge and the response of test/test-flow.js, and a stand-in for Poseidon that
  tells the order of its two inputs apart.
\<close>

definition test_hash :: Hash where
  "test_hash xs = (case xs of [x, y] \<Rightarrow> (3 * x + 5 * y + 1) mod maxField | _ \<Rightarrow> 0)"

definition test_challenge :: nat where
  "test_challenge = 53252479149983696040782982834539845211935550546231631847320157353769477342"

definition test_response :: nat where
  "test_response = 248973139977937129022338975194145376389814876831038167540701197051279463615"

text \<open>A cache with the default timeout, holding one entry stored at time 1000.\<close>

definition test_cache :: "(nat, nat list) ProofCache" where
  "test_cache = ProofCache_set 1000 ''0xab'' ''0xcd'' 42 [1, 2, 3] (newProofCache defaultTimeoutMs)"

section \<open>Properties of the registry\<close>

lemma exec_paused: "paused (fst (exec vp e c s)) = paused s"
  by (cases c) (simp_all add: registerDevice_def authenticate_def recordTransaction_def Let_def)

lemma runs_paused: "runs vp s s' \<Longrightarrow> paused s' = paused s"
  by (induction rule: runs.induct) (simp_all add: exec_paused)

lemma deploy_inv: "registry_inv (deploy initialOwner verifierAddress)"
  by (simp add: registry_inv_def deploy_def zeroDevice_def)

lemma exec_inv:
  assumes "registry_inv s" and "block_timestamp e \<noteq> 0"
  shows "registry_inv (fst (exec vp e c s))"
  using assms
  by (cases c)
    (simp_all add: registry_inv_def registerDevice_def authenticate_def recordTransaction_def
      Let_def)

lemma runs_inv: "runs vp s s' \<Longrightarrow> registry_inv s \<Longrightarrow> registry_inv s'"
  by (induction rule: runs.induct) (simp_all add: exec_inv)

lemma reachable_inv: "reachable vp s \<Longrightarrow> registry_inv s"
  unfolding reachable_def using runs_inv deploy_inv by blast

lemma reachable_not_paused: "reachable vp s \<Longrightarrow> \<not> paused s"
  using reachable_inv by (simp add: registry_inv_def)

text \<open>A record, once written, is never written again: only \<open>registerDevice\<close> writes
  \<open>devices\<close>, and only where \<open>registeredAt\<close> is 0.\<close>

lemma exec_device_kept:
  "registeredAt (devices s d) \<noteq> 0 \<Longrightarrow> devices (fst (exec vp e c s)) d = devices s d"
  by (cases c) (auto simp: registerDevice_def authenticate_def recordTransaction_def Let_def)

lemma runs_device_kept:
  "runs vp s s' \<Longrightarrow> registeredAt (devices s d) \<noteq> 0 \<Longrightarrow> devices s' d = devices s d"
  by (induction rule: runs.induct) (simp_all add: exec_device_kept)

text \<open>The activity flag is written by \<open>registerDevice\<close> only, and only to true.\<close>

lemma exec_active_kept:
  "isActive (devices s d) \<Longrightarrow> isActive (devices (fst (exec vp e c s)) d)"
  by (cases c) (auto simp: registerDevice_def authenticate_def recordTransaction_def Let_def)

lemma exec_activity_written:
  assumes "isActive (devices (fst (exec vp e c s)) d) \<noteq> isActive (devices s d)"
  shows "(\<exists>pkh hData. c = RegisterDevice d pkh hData) \<and> isActive (devices (fst (exec vp e c s)) d)"
  using assms
  by (cases c)
    (auto simp: registerDevice_def authenticate_def recordTransaction_def Let_def
      split: if_splits)

lemma exec_no_DeviceDeactivated: "DeviceDeactivated d t \<notin> set (snd (exec vp e c s))"
  by (cases c) (auto simp: registerDevice_def authenticate_def recordTransaction_def Let_def)

text \<open>
  The counter cannot overflow: it counts the records, and a device that has none leaves
  room for one more. So in a reachable state the registration of a device that has no
  record, with a non-zero identifier and key hash, succeeds.
\<close>

lemma deploy_counter_inv: "counter_inv (deploy initialOwner verifierAddress)"
  by (simp add: counter_inv_def deploy_def zeroDevice_def)

lemma registerDevice_counter_inv:
  assumes "counter_inv s" and "block_timestamp e \<noteq> 0"
  shows "counter_inv (fst (snd (registerDevice e d pkh hData s)))"
proof (cases "\<exists>r s' evs. registerDevice e d pkh hData s = (Inr r, s', evs)")
  case False
  then have "fst (snd (registerDevice e d pkh hData s)) = s"
    by (auto simp: registerDevice_def split: if_splits)
  with assms(1) show ?thesis by simp
next
  case True
  then have new: "registeredAt (devices s d) = 0" and nz: "d \<noteq> 0" and room: "totalDevices s \<noteq> - 1"
    and post: "fst (snd (registerDevice e d pkh hData s)) =
      s\<lparr>devices := (devices s)(d :=
        \<lparr>deviceId = d, pubKeyHash = pkh, helperData = hData, registeredAt = block_timestamp e,
         isActive = True, owner = msg_sender e\<rparr>), totalDevices := totalDevices s + 1\<rparr>"
    by (auto simp: registerDevice_def split: if_splits)
  let ?R = "{d'. registeredAt (devices s d') \<noteq> 0}"
  have set: "{d'. registeredAt (devices (fst (snd (registerDevice e d pkh hData s))) d') \<noteq> 0} = insert d ?R"
    using assms(2) by (auto simp: post)
  from new have "d \<notin> ?R" by simp
  then have card: "card (insert d ?R) = card ?R + 1" by simp
  from room have "1 + totalDevices s \<noteq> 0" by (simp add: add_eq_0_iff)
  then have "unat (totalDevices s + 1) = unat (totalDevices s) + 1"
    by (simp add: unatSuc add.commute)
  with assms(1) nz card show ?thesis
    unfolding counter_inv_def set by (simp add: post)
qed

lemma exec_counter_inv:
  assumes "counter_inv s" and "block_timestamp e \<noteq> 0"
  shows "counter_inv (fst (exec vp e c s))"
proof (cases c)
  case (RegisterDevice d pkh hData)
  with registerDevice_counter_inv [OF assms] show ?thesis by simp
qed (use assms(1) in \<open>simp_all add: counter_inv_def authenticate_def recordTransaction_def Let_def\<close>)

lemma runs_counter_inv: "runs vp s s' \<Longrightarrow> counter_inv s \<Longrightarrow> counter_inv s'"
  by (induction rule: runs.induct) (simp_all add: exec_counter_inv)

lemma reachable_counter_inv: "reachable vp s \<Longrightarrow> counter_inv s"
  unfolding reachable_def using runs_counter_inv deploy_counter_inv by blast

lemma reachable_counter_room:
  assumes "reachable vp s" and "registeredAt (devices s d) = 0" and "d \<noteq> 0"
  shows "totalDevices s \<noteq> - 1"
proof
  assume full: "totalDevices s = - 1"
  from assms(1) have inv: "counter_inv s" by (rule reachable_counter_inv)
  let ?R = "{d'. registeredAt (devices s d') \<noteq> 0}"
  from inv assms(2) have "?R \<subseteq> UNIV - {0, d}"
    by (auto simp: counter_inv_def)
  then have "card ?R \<le> card (UNIV - {0, d} :: bytes32 set)"
    by (intro card_mono) simp_all
  also have "\<dots> = 2 ^ 256 - 2"
    using assms(3) by (simp add: card_Diff_subset card_word)
  finally have "card ?R \<le> 2 ^ 256 - 2" .
  moreover from inv full have "card ?R = unat (- 1 :: uint256)"
    by (simp add: counter_inv_def)
  ultimately show False by (simp add: unsigned_minus_1_eq_mask mask_eq_exp_minus_1)
qed

lemma registerDevice_succeeds:
  assumes "reachable vp s" and "\<not> isDeviceRegistered s d" and "d \<noteq> 0" and "pkh \<noteq> 0"
  shows "registerDevice e d pkh hData s =
    (Inr True,
     s\<lparr>devices := (devices s)(d :=
        \<lparr>deviceId = d, pubKeyHash = pkh, helperData = hData, registeredAt = block_timestamp e,
         isActive = True, owner = msg_sender e\<rparr>), totalDevices := totalDevices s + 1\<rparr>,
     [DeviceRegistered d (block_timestamp e)])"
  using assms reachable_counter_room [of vp s d] reachable_not_paused [of vp s]
  by (simp add: registerDevice_def isDeviceRegistered_def)

lemma test_registry_eq:
  "test_registry =
     \<lparr>verifier = 8,
      devices = (\<lambda>_. zeroDevice)(test_deviceId :=
        \<lparr>deviceId = test_deviceId, pubKeyHash = 9, helperData = [0],
         registeredAt = 1700000000, isActive = True, owner = 7\<rparr>),
      transactions = (\<lambda>_. []), totalDevices = 1, paused = False, contractOwner = 7\<rparr>"
  by (simp add: test_registry_def post_state_def registerDevice_def deploy_def zeroDevice_def
      test_env_def test_deviceId_def)

lemma test_registry_reachable: "reachable vp test_registry"
proof -
  have "runs vp (deploy 7 8) (fst (exec vp test_env (RegisterDevice test_deviceId 9 [0]) (deploy 7 8)))"
    by (rule runs_step [OF runs_refl]) (simp add: test_env_def)
  then show ?thesis
    unfolding reachable_def by (auto simp: test_registry_def post_state_def)
qed

lemma test_registry_active:
  "\<not> paused test_registry" "isDeviceActive test_registry test_deviceId"
  "isDeviceRegistered test_registry test_deviceId"
  by (simp_all add: test_registry_eq isDeviceActive_def isDeviceRegistered_def)

subsection \<open>Transaction recording is gated by the proof\<close>

text \<open>
  C1. For an active device and public inputs bound to it (\<open>input[0] = uint256(deviceId)\<close>),
  \<open>recordTransaction\<close> with a proof the verifier rejects reverts with "Invalid proof"
  (ProofRejected): the storage is the one before the call, no event is logged and the
  transaction count of the device is unchanged. With a proof the verifier accepts it
  returns true, appends exactly one record to the log of the device and changes nothing
  else, so the count goes up by exactly 1, and it logs TransactionRecorded. The contract
  is not paused: no entry point pauses it (\<open>reachable_not_paused\<close>).
\<close>

theorem recordTransaction_proof_gate:
  assumes "\<not> paused s" and "isDeviceActive s d" and "input0 inp = uint256_of_bytes32 d"
  shows "recordTransaction vp e d dHash encData a b c inp s =
      (if vp a b c inp
       then (Inr True,
             s\<lparr>transactions := (transactions s)(d := transactions s d @
                 [\<lparr>tx_deviceId = d, tx_dataHash = dHash, tx_encryptedData = encData,
                   tx_timestamp = block_timestamp e\<rparr>])\<rparr>,
             [TransactionRecorded d dHash (block_timestamp e)])
       else (Inl ProofRejected, s, []))
    \<and> length (transactions (post_state (recordTransaction vp e d dHash encData a b c inp s)) d) =
      (if vp a b c inp then length (transactions s d) + 1 else length (transactions s d))
    \<and> getTransactionCount (post_state (recordTransaction vp e d dHash encData a b c inp s)) d =
      (if vp a b c inp then getTransactionCount s d + 1 else getTransactionCount s d)"
  using assms
  by (simp add: recordTransaction_def isDeviceActive_def ProofRejected_def post_state_def
      getTransactionCount_def)

theorem recordTransaction_proof_gate_witness:
  "recordTransaction test_verifier test_env test_deviceId 3 [4] (0, 0) ((0, 0), (0, 0)) (0, 0)
       (test_deviceId, 0, 0) test_registry = (Inl ProofRejected, test_registry, [])
   \<and> returned (recordTransaction test_verifier test_env test_deviceId 3 [4] (1, 0)
       ((0, 0), (0, 0)) (0, 0) (test_deviceId, 0, 0) test_registry) = Inr True
   \<and> emitted (recordTransaction test_verifier test_env test_deviceId 3 [4] (1, 0)
       ((0, 0), (0, 0)) (0, 0) (test_deviceId, 0, 0) test_registry) =
       [TransactionRecorded test_deviceId 3 1700000000]
   \<and> length (transactions (post_state (recordTransaction test_verifier test_env test_deviceId 3
       [4] (1, 0) ((0, 0), (0, 0)) (0, 0) (test_deviceId, 0, 0) test_registry)) test_deviceId) = 1"
proof -
  have bound: "input0 (test_deviceId, 0, 0) = uint256_of_bytes32 test_deviceId"
    by (simp add: input0_def uint256_of_bytes32_def)
  have rejected: "\<not> test_verifier (0, 0) ((0, 0), (0, 0)) (0, 0) (test_deviceId, 0, 0)"
    and accepted: "test_verifier (1, 0) ((0, 0), (0, 0)) (0, 0) (test_deviceId, 0, 0)"
    by (simp_all add: test_verifier_def)
  have empty: "transactions test_registry test_deviceId = []"
    by (simp add: test_registry_eq)
  have stamp: "block_timestamp test_env = 1700000000"
    by (simp add: test_env_def)
  note gate = recordTransaction_proof_gate [OF test_registry_active(1,2) bound,
      of test_verifier test_env 3 "[4]" _ "((0, 0), (0, 0))" "(0, 0)"]
  show ?thesis
    using gate [of "(0, 0)"] gate [of "(1, 0)"] rejected accepted empty stamp
    by (simp add: returned_def emitted_def post_state_def)
qed

subsection \<open>Authentication reports the verifier's answer\<close>

text \<open>
  C2. For an active device and public inputs bound to it, \<open>authenticate\<close> does not
  revert, whatever the verifier answers: it returns the verifier's answer, logs
  AuthenticationAttempt with the device and that answer, and leaves the storage as it
  was. A rejected proof is a returned \<open>false\<close>, not a failure of the call. The
  contract is not paused, as in every state it can reach (\<open>reachable_not_paused\<close>).
\<close>

theorem authenticate_reports_verifier:
  assumes "\<not> paused s" and "isDeviceActive s d" and "input0 inp = uint256_of_bytes32 d"
  shows "authenticate vp e d a b c inp s =
      (Inr (vp a b c inp), s, [AuthenticationAttempt d (vp a b c inp)])"
  using assms by (simp add: authenticate_def isDeviceActive_def Let_def)

theorem authenticate_reports_verifier_witness:
  "authenticate test_verifier test_env test_deviceId (0, 0) ((0, 0), (0, 0)) (0, 0)
       (test_deviceId, 0, 0) test_registry =
     (Inr False, test_registry, [AuthenticationAttempt test_deviceId False])
   \<and> authenticate test_verifier test_env test_deviceId (1, 0) ((0, 0), (0, 0)) (0, 0)
       (test_deviceId, 0, 0) test_registry =
     (Inr True, test_registry, [AuthenticationAttempt test_deviceId True])"
proof -
  have bound: "input0 (test_deviceId, 0, 0) = uint256_of_bytes32 test_deviceId"
    by (simp add: input0_def uint256_of_bytes32_def)
  note rep = authenticate_reports_verifier [OF test_registry_active(1,2) bound,
      of test_verifier test_env _ "((0, 0), (0, 0))" "(0, 0)"]
  show ?thesis
    using rep [of "(0, 0)"] rep [of "(1, 0)"] by (simp add: test_verifier_def)
qed

subsection \<open>Public inputs bound to another device\<close>

text \<open>
  C4. For an active device, when \<open>input[0]\<close> differs from \<open>uint256(deviceId)\<close>,
  \<open>authenticate\<close> reverts with "Device ID mismatch" (BindingMismatch), the storage is
  the one before the call and no event is logged. The verifier is not consulted: the
  outcome is the same for every verifier and every proof. The contract is not paused, as
  in every state it can reach (\<open>reachable_not_paused\<close>).
\<close>

theorem authenticate_binding_mismatch:
  assumes "\<not> paused s" and "isDeviceActive s d" and "input0 inp \<noteq> uint256_of_bytes32 d"
  shows "authenticate vp e d a b c inp s = (Inl BindingMismatch, s, [])"
  using assms by (simp add: authenticate_def isDeviceActive_def BindingMismatch_def Let_def)

theorem authenticate_binding_mismatch_witness:
  "authenticate test_verifier test_env test_deviceId (1, 0) ((0, 0), (0, 0)) (0, 0)
       (test_deviceId + 1, 0, 0) test_registry = (Inl BindingMismatch, test_registry, [])
   \<and> test_verifier (1, 0) ((0, 0), (0, 0)) (0, 0) (test_deviceId + 1, 0, 0)"
proof -
  have other: "input0 (test_deviceId + 1, 0, 0) \<noteq> uint256_of_bytes32 test_deviceId"
    by (simp add: input0_def uint256_of_bytes32_def)
  show ?thesis
    using authenticate_binding_mismatch [OF test_registry_active(1,2) other]
    by (simp add: test_verifier_def)
qed

subsection \<open>Devices that are absent or not active\<close>

text \<open>
  C5. In every state the registry can reach, \<open>authenticate\<close> for a device that has no
  record or whose record is not active reverts with "Device not active" (NotActive, the
  StateError of the specification): the storage is the one before the call and no event
  is logged, for every verifier, proof and public inputs.
\<close>

theorem authenticate_not_active:
  assumes "reachable vp s" and "\<not> isDeviceRegistered s d \<or> \<not> isDeviceActive s d"
  shows "authenticate vp' e d a b c inp s = (Inl NotActive, s, [])"
proof -
  from assms(1) have inv: "registry_inv s" by (rule reachable_inv)
  with assms(2) have "\<not> isActive (devices s d)"
    by (auto simp: registry_inv_def isDeviceRegistered_def isDeviceActive_def)
  with inv show ?thesis
    by (simp add: authenticate_def registry_inv_def NotActive_def)
qed

theorem authenticate_not_active_witness:
  "\<not> isDeviceRegistered test_registry 5
   \<and> authenticate test_verifier test_env 5 (1, 0) ((0, 0), (0, 0)) (0, 0) (5, 0, 0) test_registry =
     (Inl NotActive, test_registry, [])"
proof -
  have absent: "\<not> isDeviceRegistered test_registry 5"
    by (simp add: test_registry_eq isDeviceRegistered_def test_deviceId_def zeroDevice_def)
  then have "\<not> isDeviceRegistered test_registry 5 \<or> \<not> isDeviceActive test_registry 5" ..
  from authenticate_not_active [OF test_registry_reachable this] absent
  show ?thesis by simp
qed

subsection \<open>Registering a device twice\<close>

text \<open>
  C3. When \<open>registerDevice\<close> has succeeded for a device, it has returned true, logged
  DeviceRegistered, left an active record for the device and incremented
  \<open>totalDevices\<close> by one (without wrapping round). From then on, after any number of
  further calls, every \<open>registerDevice\<close> for the same device, with whatever key hash,
  helper data, sender and timestamp, reverts with "Device already registered"
  (AlreadyRegistered): the storage, with the record of the device, every transaction log
  and the counter, is the one before the call, and nothing is logged. The record is
  recognised by its \<open>registeredAt\<close>, the timestamp of the block of the first call, which
  the ledger never sets to 0. (That a first registration does succeed in a reachable state
  is \<open>registerDevice_succeeds\<close>.)
\<close>

theorem registerDevice_twice:
  assumes "registerDevice e d pkh hData s = (Inr r, s1, evs)"
    and "block_timestamp e \<noteq> 0"
    and "runs vp s1 s2"
  shows "r = True \<and> evs = [DeviceRegistered d (block_timestamp e)]
    \<and> isDeviceRegistered s1 d \<and> isDeviceActive s1 d
    \<and> totalDevices s1 = totalDevices s + 1 \<and> unat (totalDevices s1) = unat (totalDevices s) + 1
    \<and> devices s2 d = devices s1 d
    \<and> registerDevice e' d pkh' hData' s2 = (Inl AlreadyRegistered, s2, [])"
proof -
  from assms(1) have ok: "\<not> paused s" "totalDevices s \<noteq> - 1"
    and s1: "s1 = s\<lparr>devices := (devices s)(d :=
        \<lparr>deviceId = d, pubKeyHash = pkh, helperData = hData, registeredAt = block_timestamp e,
         isActive = True, owner = msg_sender e\<rparr>), totalDevices := totalDevices s + 1\<rparr>"
    and r: "r = True" "evs = [DeviceRegistered d (block_timestamp e)]"
    by (auto simp: registerDevice_def split: if_splits)
  from s1 assms(2) have reg: "registeredAt (devices s1 d) \<noteq> 0" by simp
  from ok(2) have "1 + totalDevices s \<noteq> 0"
    by (simp add: add_eq_0_iff)
  then have cnt: "unat (totalDevices s + 1) = unat (totalDevices s) + 1"
    by (simp add: unatSuc add.commute)
  from runs_device_kept [OF assms(3) reg] have kept: "devices s2 d = devices s1 d" .
  from runs_paused [OF assms(3)] s1 ok(1) have "\<not> paused s2" by simp
  with kept reg have "registerDevice e' d pkh' hData' s2 = (Inl AlreadyRegistered, s2, [])"
    by (simp add: registerDevice_def AlreadyRegistered_def)
  with r s1 reg cnt kept show ?thesis
    by (simp add: isDeviceRegistered_def isDeviceActive_def)
qed

theorem registerDevice_twice_witness:
  "registerDevice test_env test_deviceId 9 [0] (deploy 7 8) =
     (Inr True, test_registry, [DeviceRegistered test_deviceId 1700000000])
   \<and> totalDevices test_registry = totalDevices (deploy 7 8) + 1
   \<and> registerDevice \<lparr>msg_sender = 11, block_timestamp = 1700000500\<rparr> test_deviceId 10 []
       (fst (exec test_verifier test_env (OwnableCall 11) test_registry)) =
     (Inl AlreadyRegistered, fst (exec test_verifier test_env (OwnableCall 11) test_registry), [])"
proof -
  have first: "registerDevice test_env test_deviceId 9 [0] (deploy 7 8) =
      (Inr True, test_registry, [DeviceRegistered test_deviceId (block_timestamp test_env)])"
    by (simp add: test_registry_def post_state_def registerDevice_def deploy_def zeroDevice_def
        test_env_def test_deviceId_def)
  have stamp: "block_timestamp test_env \<noteq> 0"
    by (simp add: test_env_def)
  have later: "runs test_verifier test_registry
      (fst (exec test_verifier test_env (OwnableCall 11) test_registry))"
    by (rule runs_step [OF runs_refl stamp])
  from registerDevice_twice [OF first stamp later] first show ?thesis
    by (simp add: test_env_def)
qed

subsection \<open>No deactivation\<close>

text \<open>
  C7 as stated does not hold of the contract: it declares the event DeviceDeactivated
  but has no \<open>deactivate\<close> entry point. On the registry with the active test device, no
  call of the interface, by the owner or anyone else, leaves the device inactive or logs
  DeviceDeactivated.
\<close>

theorem deactivate_missing:
  "\<not> (\<exists>vp e c. \<not> isDeviceActive (fst (exec vp e c test_registry)) test_deviceId
        \<or> (\<exists>t. DeviceDeactivated test_deviceId t \<in> set (snd (exec vp e c test_registry))))"
  using exec_active_kept [of test_registry test_deviceId] test_registry_active(2)
    exec_no_DeviceDeactivated [of test_deviceId]
  by (simp add: isDeviceActive_def)

text \<open>
  C7, amended. The registry offers no operation that deactivates a device: under every
  call of its interface (registerDevice, authenticate, recordTransaction, the three views
  and the inherited ownership calls), for every sender, an active device stays active, and
  no call logs DeviceDeactivated for any device.
\<close>

theorem no_deactivation:
  assumes "isDeviceActive s d"
  shows "isDeviceActive (fst (exec vp e c s)) d
    \<and> DeviceDeactivated d' t \<notin> set (snd (exec vp e c s))"
  using assms exec_active_kept [of s d vp e c] exec_no_DeviceDeactivated [of d' t vp e c s]
  by (simp add: isDeviceActive_def)

theorem no_deactivation_witness:
  "isDeviceActive (fst (exec test_verifier test_env (RegisterDevice test_deviceId 9 [0])
       test_registry)) test_deviceId
   \<and> DeviceDeactivated test_deviceId 1700000000 \<notin>
       set (snd (exec test_verifier test_env (RegisterDevice test_deviceId 9 [0]) test_registry))"
  by (rule no_deactivation [OF test_registry_active(2)])

subsection \<open>The invariant of the registry\<close>

text \<open>
  C10. In every state the registry can reach, and so after every operation, a device
  that \<open>isDeviceActive\<close> reports active is one that \<open>isDeviceRegistered\<close> reports
  registered. A device that is registered in a reachable state is, after any number of
  further calls, still registered and active, with the record it had. A call changes the
  activity flag of a device only if it is \<open>registerDevice\<close> for that device, and
  then to true: nothing clears the flag.
\<close>

theorem registered_stays_active:
  assumes "reachable vp s" and "runs vp s s'"
  shows "(isDeviceActive s' d \<longrightarrow> isDeviceRegistered s' d)
    \<and> (isDeviceRegistered s d \<longrightarrow>
         isDeviceRegistered s' d \<and> isDeviceActive s' d \<and> devices s' d = devices s d)
    \<and> (isDeviceActive (fst (exec vp e c s')) d \<noteq> isDeviceActive s' d \<longrightarrow>
         (\<exists>pkh hData. c = RegisterDevice d pkh hData) \<and> isDeviceActive (fst (exec vp e c s')) d)"
proof -
  from assms(1) have inv: "registry_inv s" by (rule reachable_inv)
  from runs_inv [OF assms(2) inv] have inv': "registry_inv s'" .
  have kept: "devices s' d = devices s d" if "isDeviceRegistered s d"
    using runs_device_kept [OF assms(2)] that by (simp add: isDeviceRegistered_def)
  have a: "isDeviceActive s' d \<longrightarrow> isDeviceRegistered s' d"
    using inv' by (simp add: registry_inv_def isDeviceRegistered_def isDeviceActive_def)
  have b: "isDeviceRegistered s d \<longrightarrow>
      isDeviceRegistered s' d \<and> isDeviceActive s' d \<and> devices s' d = devices s d"
    using inv kept by (simp add: registry_inv_def isDeviceRegistered_def isDeviceActive_def)
  have c: "isDeviceActive (fst (exec vp e c s')) d \<noteq> isDeviceActive s' d \<longrightarrow>
      (\<exists>pkh hData. c = RegisterDevice d pkh hData) \<and> isDeviceActive (fst (exec vp e c s')) d"
    unfolding isDeviceActive_def using exec_activity_written [of vp e c s' d] by blast
  from a b c show ?thesis by blast
qed

theorem registered_stays_active_witness:
  "isDeviceRegistered test_registry test_deviceId
   \<and> isDeviceRegistered (fst (exec test_verifier test_env
        (RecordTransaction test_deviceId 3 [4] (1, 0) ((0, 0), (0, 0)) (0, 0) (test_deviceId, 0, 0))
        test_registry)) test_deviceId
   \<and> isDeviceActive (fst (exec test_verifier test_env
        (RecordTransaction test_deviceId 3 [4] (1, 0) ((0, 0), (0, 0)) (0, 0) (test_deviceId, 0, 0))
        test_registry)) test_deviceId
   \<and> \<not> isDeviceActive test_registry 5
   \<and> isDeviceActive (fst (exec test_verifier test_env (RegisterDevice 5 9 []) test_registry)) 5"
proof -
  have stamp: "block_timestamp test_env \<noteq> 0"
    by (simp add: test_env_def)
  have step: "runs test_verifier test_registry (fst (exec test_verifier test_env
      (RecordTransaction test_deviceId 3 [4] (1, 0) ((0, 0), (0, 0)) (0, 0) (test_deviceId, 0, 0))
      test_registry))"
    by (rule runs_step [OF runs_refl stamp])
  have absent: "\<not> isDeviceActive test_registry 5"
    by (simp add: test_registry_eq isDeviceActive_def test_deviceId_def zeroDevice_def)
  have fresh: "isDeviceActive (fst (exec test_verifier test_env (RegisterDevice 5 9 []) test_registry)) 5"
    by (simp add: test_registry_eq isDeviceActive_def registerDevice_def test_deviceId_def
        zeroDevice_def)
  from registered_stays_active [OF test_registry_reachable step, of test_deviceId]
    test_registry_active(3) absent fresh
  show ?thesis by blast
qed

section \<open>Properties of the proof cache\<close>

text \<open>
  C8. When the cache holds an entry for the key of a device and a challenge, and at the
  time of the call the age of the entry, \<open>now - timestamp\<close>, exceeds the timeout of the
  cache, \<open>get\<close> returns \<open>null\<close> and leaves the cache without an entry for the key:
  an expired entry is evicted and is not returned. And whatever entry \<open>get\<close> returns
  is the one stored for the key, of an age that does not exceed the timeout. The
  time-to-live is the one timeout of the cache, the same for every entry.
\<close>

theorem ProofCache_get_expired:
  "(cache pc (getKey dId challenge) = Some entry \<and> now - entry_timestamp entry > timeout pc \<longrightarrow>
      ProofCache_get now dId challenge pc =
        (None, pc\<lparr>cache := (cache pc)(getKey dId challenge := None)\<rparr>)
      \<and> cache (snd (ProofCache_get now dId challenge pc)) (getKey dId challenge) = None)
   \<and> (fst (ProofCache_get now dId challenge pc) = Some entry' \<longrightarrow>
      cache pc (getKey dId challenge) = Some entry' \<and> now - entry_timestamp entry' \<le> timeout pc)"
  by (auto simp: ProofCache_get_def Let_def split: option.splits if_splits)

theorem ProofCache_get_expired_witness:
  "fst (ProofCache_get 301000 ''0xab'' ''0xcd'' test_cache) =
     Some \<lparr>entry_proof = 42, entry_publicSignals = [1, 2, 3], entry_timestamp = 1000\<rparr>
   \<and> 301000 - 1000 \<le> timeout test_cache
   \<and> ProofCache_get 301001 ''0xab'' ''0xcd'' test_cache = (None, newProofCache defaultTimeoutMs)
   \<and> cache (snd (ProofCache_get 301001 ''0xab'' ''0xcd'' test_cache)) (getKey ''0xab'' ''0xcd'') = None"
proof -
  let ?entry = "\<lparr>entry_proof = 42 :: nat, entry_publicSignals = [1, 2, 3 :: nat],
    entry_timestamp = 1000\<rparr>"
  have stored: "cache test_cache (getKey ''0xab'' ''0xcd'') = Some ?entry"
    by (simp add: test_cache_def ProofCache_set_def)
  have old: "301001 - entry_timestamp ?entry > timeout test_cache"
    by (simp add: test_cache_def ProofCache_set_def newProofCache_def defaultTimeoutMs_def)
  have evicted: "test_cache\<lparr>cache := (cache test_cache)(getKey ''0xab'' ''0xcd'' := None)\<rparr> =
      newProofCache defaultTimeoutMs"
    by (simp add: test_cache_def ProofCache_set_def newProofCache_def)
  have fresh: "fst (ProofCache_get 301000 ''0xab'' ''0xcd'' test_cache) = Some ?entry"
    using stored
    by (simp add: ProofCache_get_def test_cache_def ProofCache_set_def newProofCache_def
        defaultTimeoutMs_def)
  from ProofCache_get_expired [of test_cache "''0xab''" "''0xcd''" ?entry 301001]
    ProofCache_get_expired [of test_cache "''0xab''" "''0xcd''" _ 301000 ?entry]
    stored old evicted fresh
  show ?thesis by (simp add: newProofCache_def)
qed

section \<open>Properties of the commitment\<close>

lemma maxField_254: "maxField < 2 ^ 254"
  by (simp add: maxField_def)

lemma DeviceAuth_iff:
  "DeviceAuth H d c h r \<longleftrightarrow> d < 2 ^ 254 \<and> c < 2 ^ 254 \<and> r < 2 ^ 254 \<and> h = commit H r c"
  by (auto simp: DeviceAuth_def Num2Bits_def DeviceAuth_computedHash_def commit_def)

lemma generateExpectedHash_commit:
  assumes "poseidon sim = Some H"
  shows "generateExpectedHash sha256 dId ch sim =
     (Inr (commit H (fst (generateResponse sha256 dId ch sim)) ch),
      snd (generateResponse sha256 dId ch sim))"
  using assms by (simp add: generateExpectedHash_def commit_def split_beta)

text \<open>
  C6. The hash the circuit computes, \<open>computedHash\<close>, is the commitment
  \<open>commit(response, challenge)\<close> for every response and challenge, and so is the hash
  \<open>generateExpectedHash\<close> computes outside the proof for the response of the
  simulator: Poseidon of \<open>[response, challenge]\<close>, in this order, on both sides. The
  statement holds exactly when the three inputs are in range and the expected hash is
  this commitment. Hence a proof issued for a statement was issued for the commitment of
  its witness and verifies against that statement, and against any other commitment it
  fails verification; no proof at all is issued for the other commitment and the same
  response.
\<close>

theorem commitment_round_trip:
  "DeviceAuth_computedHash H r c = commit H r c
   \<and> (poseidon sim = Some H \<longrightarrow>
        generateExpectedHash sha256 dId ch sim =
          (Inr (commit H (fst (generateResponse sha256 dId ch sim)) ch),
           snd (generateResponse sha256 dId ch sim)))
   \<and> (DeviceAuth H d c h r \<longleftrightarrow> d < 2 ^ 254 \<and> c < 2 ^ 254 \<and> r < 2 ^ 254 \<and> h = commit H r c)
   \<and> (issue H (d, c, h) r = Inr pf \<longrightarrow>
        h = commit H r c \<and> verify H pf [d, c, h] = Inr True
        \<and> (h' \<noteq> h \<longrightarrow> verify H pf [d, c, h'] = Inr False
              \<and> issue H (d, c, h') r = Inl Unsatisfiable))"
proof -
  have hash: "DeviceAuth_computedHash H r c = commit H r c"
    by (simp add: DeviceAuth_computedHash_def commit_def)
  have gate: "h = commit H r c \<and> verify H pf [d, c, h] = Inr True
        \<and> (h' \<noteq> h \<longrightarrow> verify H pf [d, c, h'] = Inr False
              \<and> issue H (d, c, h') r = Inl Unsatisfiable)"
    if "issue H (d, c, h) r = Inr pf"
  proof -
    from that have sat: "DeviceAuth H d c h r" and pf: "pf = Proof (d, c, h) r"
      by (auto simp: issue_def split: if_splits)
    from sat have h: "h = commit H r c" by (simp add: DeviceAuth_iff)
    from sat pf have ok: "verify H pf [d, c, h] = Inr True"
      by (simp add: verify_def)
    have "verify H pf [d, c, h'] = Inr False" "issue H (d, c, h') r = Inl Unsatisfiable"
      if "h' \<noteq> h"
      using that pf h by (simp_all add: verify_def issue_def DeviceAuth_iff)
    with h ok show ?thesis by simp
  qed
  from hash generateExpectedHash_commit [of sim H sha256 dId ch] DeviceAuth_iff [of H d c h r] gate
  show ?thesis by blast
qed

lemma test_commit: "commit test_hash test_response test_challenge =
    1013181815683729867270931839755135355229122383224272661858704377922685777556"
  by (simp add: commit_def test_hash_def test_response_def test_challenge_def maxField_def)


lemma test_deviceId_unat:
  "unat test_deviceId = 167187242023213709790752988836059498562277881928506182497546456141543281514"
  by (simp add: test_deviceId_def)

theorem commitment_round_trip_witness:
  "poseidon (initialize test_hash (newPUFSimulator [1, 2, 3])) = Some test_hash
   \<and> fst (generateExpectedHash (\<lambda>buffer. length buffer) 5 7
         (initialize test_hash (newPUFSimulator [1, 2, 3]))) =
       Inr (commit test_hash (fst (generateResponse (\<lambda>buffer. length buffer) 5 7
         (initialize test_hash (newPUFSimulator [1, 2, 3])))) 7)
   \<and> issue test_hash (unat test_deviceId, test_challenge,
         1013181815683729867270931839755135355229122383224272661858704377922685777556)
         test_response =
       Inr (Proof (unat test_deviceId, test_challenge,
         1013181815683729867270931839755135355229122383224272661858704377922685777556)
         test_response)
   \<and> verify test_hash (Proof (unat test_deviceId, test_challenge,
         1013181815683729867270931839755135355229122383224272661858704377922685777556)
         test_response)
         [unat test_deviceId, test_challenge,
          1013181815683729867270931839755135355229122383224272661858704377922685777556] = Inr True
   \<and> verify test_hash (Proof (unat test_deviceId, test_challenge,
         1013181815683729867270931839755135355229122383224272661858704377922685777556)
         test_response)
         [unat test_deviceId, test_challenge,
          1013181815683729867270931839755135355229122383224272661858704377922685777557] = Inr False"
proof -
  let ?h = "1013181815683729867270931839755135355229122383224272661858704377922685777556 :: nat"
  let ?sim = "initialize test_hash (newPUFSimulator [1, 2, 3])"
  have init: "poseidon ?sim = Some test_hash"
    by (simp add: initialize_def)
  have issued: "issue test_hash (unat test_deviceId, test_challenge, ?h) test_response =
      Inr (Proof (unat test_deviceId, test_challenge, ?h) test_response)"
    by (simp add: issue_def DeviceAuth_iff test_commit test_deviceId_unat)
      (simp add: test_challenge_def test_response_def)
  have other: "?h + 1 \<noteq> ?h" by simp
  from commitment_round_trip [of test_hash test_response test_challenge ?sim
      "\<lambda>buffer. length buffer" 5 7 "unat test_deviceId" ?h
      "Proof (unat test_deviceId, test_challenge, ?h) test_response" "?h + 1"]
    init issued other
  show ?thesis by simp
qed

text \<open>
  The simulator answers a repeated query with the stored response, and its responses are
  field elements, below \<open>2 ^ 254\<close>: the statement built from a device, a challenge,
  the response of the simulator and the hash it expects satisfies the circuit.
\<close>

lemma maxField_pos: "0 < maxField"
  by (simp add: maxField_def)

lemma generateResponse_memo:
  assumes "generateResponse sha256 dId ch sim = (r, sim1)"
  shows "generateResponse sha256 dId ch sim1 = (r, sim1)"
  using assms by (auto simp: generateResponse_def Let_def split: option.splits)

lemma generateResponse_in_field:
  assumes "responses_in_field sim" and "generateResponse sha256 dId ch sim = (r, sim1)"
  shows "r < maxField \<and> responses_in_field sim1"
proof -
  have "sha256 buffer mod maxField < maxField" for buffer
    using maxField_pos by simp
  with assms show ?thesis
    by (auto simp: generateResponse_def Let_def responses_in_field_def
        split: option.splits if_splits)
qed

lemma new_simulator_in_field: "responses_in_field (initialize H (newPUFSimulator sd))"
  by (simp add: responses_in_field_def initialize_def newPUFSimulator_def)

lemma honest_statement_satisfied:
  assumes "poseidon sim = Some H" and "responses_in_field sim"
    and "dId < 2 ^ 254" and "ch < 2 ^ 254"
    and "generateResponse sha256 dId ch sim = (r, sim1)"
  shows "generateExpectedHash sha256 dId ch sim1 = (Inr (commit H r ch), sim1)
    \<and> DeviceAuth H dId ch (commit H r ch) r"
proof -
  from assms(5) have "poseidon sim1 = poseidon sim"
    by (auto simp: generateResponse_def Let_def split: option.splits)
  with assms(1) generateResponse_memo [OF assms(5)]
  have "generateExpectedHash sha256 dId ch sim1 = (Inr (commit H r ch), sim1)"
    by (simp add: generateExpectedHash_def commit_def)
  moreover from generateResponse_in_field [OF assms(2,5)] maxField_254 have "r < 2 ^ 254"
    by simp
  ultimately show ?thesis
    using assms(3,4) by (simp add: DeviceAuth_iff)
qed

section \<open>Properties of the noise\<close>

text \<open>
  What can be said of \<open>addNoiseToResponse\<close> without the floating-point product and
  the distribution of \<open>Math.random\<close>: reading back the binary digits of a response
  gives the response, so a call whose loop does not run (as for noise level 0, where
  the product is 0) returns its argument; and flipping a digit twice restores it.
\<close>

lemma BigInt_0b_snoc:
  "BigInt_0b (bits @ [ch]) = 2 * BigInt_0b bits + (if ch = CHR ''1'' then 1 else 0)"
  by (simp add: BigInt_0b_def)

lemma BigInt_0b_toString2: "BigInt_0b (toString2 n) = n"
proof (induction n rule: toString2.induct)
  case (1 n)
  show ?case
  proof (cases "n < 2")
    case True
    then have "n = 0 \<or> n = 1" by auto
    then show ?thesis
      by (auto simp: toString2.simps [of 0] toString2.simps [of 1] toString2.simps [of "Suc 0"] BigInt_0b_def)
  next
    case False
    with 1 have "BigInt_0b (toString2 (n div 2)) = n div 2" by simp
    moreover have "BigInt_0b (toString2 n) =
        2 * BigInt_0b (toString2 (n div 2)) + (if n mod 2 = 0 then 0 else 1)"
      using False by (subst toString2.simps) (simp add: BigInt_0b_snoc)
    ultimately show ?thesis by presburger
  qed
qed

lemma addNoiseToResponse_no_flip: "addNoiseToResponse r [] = r"
  by (simp add: addNoiseToResponse_def BigInt_0b_toString2)

lemma flipBits_twice:
  assumes "index < length responseBits" and "set responseBits \<subseteq> {CHR ''0'', CHR ''1''}"
  shows "flipBits [index, index] responseBits = responseBits"
proof -
  from assms have "responseBits ! index = CHR ''0'' \<or> responseBits ! index = CHR ''1''"
    using nth_mem by blast
  with assms(1) show ?thesis
    by (auto simp: list_update_same_conv)
qed

end
